theory Spec2Isabelle
  imports Complex_Main "HOL-Library.Monad_Syntax"
begin

section \<open>Values: exact reals with the IEEE 754 special values\<close>

text \<open>
  The module \<^verbatim>\<open>plaszczynski.py\<close> computes with numpy double-precision numbers.
  A value is modelled as an exact real number or one of the three special values
  that numpy produces instead of raising: \<open>PInf\<close> (\<^verbatim>\<open>inf\<close>), \<open>MInf\<close> (\<^verbatim>\<open>-inf\<close>)
  and \<open>NaN\<close> (\<^verbatim>\<open>nan\<close>). Rounding, overflow and underflow are not modelled: a finite
  result is the exact real result. Zero carries no sign; it behaves as \<^verbatim>\<open>+0.0\<close>
  (every divisor that occurs in the module is a square or a square root, which is
  never \<^verbatim>\<open>-0.0\<close>).

  A property of this model is a property of the program only where it does not rest
  on a result being exact. The theorems stated for the program below are of that
  kind: they follow the special values through the computation, they relate the
  output to the values that the program itself computes on the way (the computed
  \<open>P\<close>, half-angle or bias) rather than to their exact mathematical counterparts, or
  they separate two outputs by a margin far above rounding. Identities that hold in
  exact arithmetic only (the closed formula of the estimate, its bounds, its
  symmetries) are not stated: in double precision they hold up to rounding at best.
\<close>

datatype fval = Fin real | PInf | MInf | NaN

fun fneg :: "fval \<Rightarrow> fval" where
  "fneg (Fin x) = Fin (- x)"
| "fneg PInf = MInf"
| "fneg MInf = PInf"
| "fneg NaN = NaN"

fun fadd :: "fval \<Rightarrow> fval \<Rightarrow> fval" where
  "fadd NaN _ = NaN"
| "fadd _ NaN = NaN"
| "fadd (Fin x) (Fin y) = Fin (x + y)"
| "fadd PInf MInf = NaN"
| "fadd MInf PInf = NaN"
| "fadd PInf _ = PInf"
| "fadd _ PInf = PInf"
| "fadd MInf _ = MInf"
| "fadd _ MInf = MInf"

definition fsub :: "fval \<Rightarrow> fval \<Rightarrow> fval" where
  "fsub a b = fadd a (fneg b)"

fun fmul :: "fval \<Rightarrow> fval \<Rightarrow> fval" where
  "fmul NaN _ = NaN"
| "fmul _ NaN = NaN"
| "fmul (Fin x) (Fin y) = Fin (x * y)"
| "fmul (Fin x) PInf = (if x = 0 then NaN else if 0 < x then PInf else MInf)"
| "fmul (Fin x) MInf = (if x = 0 then NaN else if 0 < x then MInf else PInf)"
| "fmul PInf (Fin y) = (if y = 0 then NaN else if 0 < y then PInf else MInf)"
| "fmul MInf (Fin y) = (if y = 0 then NaN else if 0 < y then MInf else PInf)"
| "fmul PInf PInf = PInf"
| "fmul PInf MInf = MInf"
| "fmul MInf PInf = MInf"
| "fmul MInf MInf = PInf"

text \<open>
  numpy division does not raise: \<^verbatim>\<open>x / 0.0\<close> is \<^verbatim>\<open>nan\<close> for \<^verbatim>\<open>x = 0\<close> and
  an infinity with the sign of \<^verbatim>\<open>x\<close> otherwise.
\<close>

fun fdiv :: "fval \<Rightarrow> fval \<Rightarrow> fval" where
  "fdiv NaN _ = NaN"
| "fdiv _ NaN = NaN"
| "fdiv (Fin x) (Fin y) =
     (if y \<noteq> 0 then Fin (x / y)
      else if x = 0 then NaN
      else if 0 < x then PInf else MInf)"
| "fdiv (Fin x) PInf = Fin 0"
| "fdiv (Fin x) MInf = Fin 0"
| "fdiv PInf (Fin y) = (if 0 \<le> y then PInf else MInf)"
| "fdiv MInf (Fin y) = (if 0 \<le> y then MInf else PInf)"
| "fdiv PInf PInf = NaN"
| "fdiv PInf MInf = NaN"
| "fdiv MInf PInf = NaN"
| "fdiv MInf MInf = NaN"

text \<open>\<^verbatim>\<open>x ** 2\<close> on numpy floats is the product \<^verbatim>\<open>x * x\<close>.\<close>

definition fpow2 :: "fval \<Rightarrow> fval" where
  "fpow2 a = fmul a a"

text \<open>\<^verbatim>\<open>np.sqrt\<close>: a negative argument gives \<^verbatim>\<open>nan\<close> (with a warning, no exception).\<close>

fun fsqrt :: "fval \<Rightarrow> fval" where
  "fsqrt (Fin x) = (if x < 0 then NaN else Fin (sqrt x))"
| "fsqrt PInf = PInf"
| "fsqrt MInf = NaN"
| "fsqrt NaN = NaN"

fun fexp :: "fval \<Rightarrow> fval" where
  "fexp (Fin x) = Fin (exp x)"
| "fexp PInf = PInf"
| "fexp MInf = Fin 0"
| "fexp NaN = NaN"

fun fsin :: "fval \<Rightarrow> fval" where
  "fsin (Fin x) = Fin (sin x)"
| "fsin _ = NaN"

fun fcos :: "fval \<Rightarrow> fval" where
  "fcos (Fin x) = Fin (cos x)"
| "fcos _ = NaN"

text \<open>
  The two-argument arctangent of the C library on finite arguments, first argument
  the ordinate: the angle in \<open>(-\<pi>, \<pi>]\<close> of the point \<open>(x, y)\<close>, and \<open>0\<close> at the origin.
\<close>

definition arctan2 :: "real \<Rightarrow> real \<Rightarrow> real" where
  "arctan2 y x =
     (if 0 < x then arctan (y / x)
      else if x < 0 then (if 0 \<le> y then arctan (y / x) + pi else arctan (y / x) - pi)
      else if 0 < y then pi / 2
      else if y < 0 then - (pi / 2)
      else 0)"

fun farctan2 :: "fval \<Rightarrow> fval \<Rightarrow> fval" where
  "farctan2 NaN _ = NaN"
| "farctan2 _ NaN = NaN"
| "farctan2 (Fin y) (Fin x) = Fin (arctan2 y x)"
| "farctan2 (Fin y) PInf = Fin 0"
| "farctan2 (Fin y) MInf = (if 0 \<le> y then Fin pi else Fin (- pi))"
| "farctan2 PInf (Fin x) = Fin (pi / 2)"
| "farctan2 MInf (Fin x) = Fin (- (pi / 2))"
| "farctan2 PInf PInf = Fin (pi / 4)"
| "farctan2 PInf MInf = Fin (3 * pi / 4)"
| "farctan2 MInf PInf = Fin (- (pi / 4))"
| "farctan2 MInf MInf = Fin (- (3 * pi / 4))"

text \<open>
  \<^verbatim>\<open>np.mod\<close> is the remainder that takes the sign of the divisor (Python's \<^verbatim>\<open>%\<close>):
  \<open>a - b * \<lfloor>a / b\<rfloor>\<close> on finite arguments with \<open>b \<noteq> 0\<close>, \<^verbatim>\<open>nan\<close> for a zero divisor
  or an infinite dividend.
\<close>

definition np_mod :: "real \<Rightarrow> real \<Rightarrow> real" where
  "np_mod a b = a - b * of_int \<lfloor>a / b\<rfloor>"

fun fmod :: "fval \<Rightarrow> fval \<Rightarrow> fval" where
  "fmod NaN _ = NaN"
| "fmod _ NaN = NaN"
| "fmod PInf _ = NaN"
| "fmod MInf _ = NaN"
| "fmod (Fin a) (Fin b) = (if b = 0 then NaN else Fin (np_mod a b))"
| "fmod (Fin a) PInf = (if 0 \<le> a then Fin a else PInf)"
| "fmod (Fin a) MInf = (if a \<le> 0 then Fin a else MInf)"

section \<open>The estimator on scalars\<close>

text \<open>
  The functions of the module, one definition each, in the order of the source.
  The leading underscore of the private helpers is written \<open>u_\<close>, and the
  variable \<^verbatim>\<open>sup\<close> is written \<open>sup'\<close>.
\<close>

definition u_phi :: "fval \<Rightarrow> fval \<Rightarrow> fval" where
  "u_phi q u = farctan2 u q"

definition u_theta :: "fval \<Rightarrow> fval \<Rightarrow> fval \<Rightarrow> fval" where
  "u_theta sq su rsqsu =
     fmod (fmul (Fin (1 / 2)) (farctan2 (fmul (Fin 2) rsqsu) (fsub (fpow2 sq) (fpow2 su))))
          (Fin pi)"

definition u_bias :: "fval \<Rightarrow> fval \<Rightarrow> fval \<Rightarrow> fval \<Rightarrow> fval" where
  "u_bias sqp sup' phi theta =
     fsqrt (fadd (fmul (fpow2 sup') (fpow2 (fcos (fsub phi theta))))
                 (fmul (fpow2 sqp) (fpow2 (fsin (fsub phi theta)))))"

definition u_sigma_q_prime :: "fval \<Rightarrow> fval \<Rightarrow> fval \<Rightarrow> fval \<Rightarrow> fval" where
  "u_sigma_q_prime sq su rsqsu theta =
     fsqrt (fadd (fadd (fmul (fpow2 sq) (fpow2 (fcos theta)))
                       (fmul (fpow2 su) (fpow2 (fsin theta))))
                 (fmul rsqsu (fsin (fmul (Fin 2) theta))))"

definition u_sigma_u_prime :: "fval \<Rightarrow> fval \<Rightarrow> fval \<Rightarrow> fval \<Rightarrow> fval" where
  "u_sigma_u_prime sq su rsqsu theta =
     fsqrt (fsub (fadd (fmul (fpow2 sq) (fpow2 (fsin theta)))
                       (fmul (fpow2 su) (fpow2 (fcos theta))))
                 (fmul rsqsu (fsin (fmul (Fin 2) theta))))"

definition u_P :: "fval \<Rightarrow> fval \<Rightarrow> fval" where
  "u_P q u = fsqrt (fadd (fpow2 q) (fpow2 u))"

text \<open>
  The last line of \<^verbatim>\<open>PMAS\<close> is
  \<^verbatim>\<open>P - bias ** 2 * (1. - np.exp(- P ** 2 / bias ** 2)) / 2. / P\<close>.
  With Python's precedence the unary minus applies to \<^verbatim>\<open>P ** 2\<close>, and the two
  divisions associate to the left.
\<close>

definition PMAS :: "fval \<Rightarrow> fval \<Rightarrow> fval \<Rightarrow> fval \<Rightarrow> fval \<Rightarrow> fval" where
  "PMAS q u sq su rsqsu =
     (let P = u_P q u;
          phi = u_phi q u;
          theta = u_theta sq su rsqsu;
          sqp = u_sigma_q_prime sq su rsqsu theta;
          sup' = u_sigma_u_prime sq su rsqsu theta;
          bias = u_bias sqp sup' phi theta
      in fsub P (fdiv (fdiv (fmul (fpow2 bias)
                                  (fsub (Fin 1) (fexp (fdiv (fneg (fpow2 P)) (fpow2 bias)))))
                            (Fin 2))
                      P))"

section \<open>The estimator on arrays\<close>

text \<open>
  The module is written for numpy arrays: every operator and \<^verbatim>\<open>np.\<close> function in it acts
  element by element. A one-dimensional array is a list of values. A binary operation
  on two arrays follows numpy's broadcasting rule for one dimension: equal lengths
  combine index by index, an array of length one is stretched over the other, and any
  other pair of lengths raises \<^verbatim>\<open>ValueError\<close>, modelled as \<open>None\<close>. An operation between
  an array and a Python scalar (\<^verbatim>\<open>2.\<close>, \<^verbatim>\<open>0.5\<close>, \<^verbatim>\<open>1.\<close>, \<^verbatim>\<open>np.pi\<close>) and a unary function
  are a \<open>map\<close>. The definitions below are the functions of the module once more, read
  on arrays, each intermediate array named.
\<close>

definition ufunc2 :: "(fval \<Rightarrow> fval \<Rightarrow> fval) \<Rightarrow> fval list \<Rightarrow> fval list \<Rightarrow> fval list option" where
  "ufunc2 f xs ys =
     (if length xs = length ys then Some (map2 f xs ys)
      else if length xs = 1 then Some (map (f (hd xs)) ys)
      else if length ys = 1 then Some (map (\<lambda>x. f x (hd ys)) xs)
      else None)"

definition u_phi_arr :: "fval list \<Rightarrow> fval list \<Rightarrow> fval list option" where
  "u_phi_arr q u = ufunc2 farctan2 u q"

definition u_theta_arr :: "fval list \<Rightarrow> fval list \<Rightarrow> fval list \<Rightarrow> fval list option" where
  "u_theta_arr sq su rsqsu = do {
     d \<leftarrow> ufunc2 fsub (map fpow2 sq) (map fpow2 su);
     a \<leftarrow> ufunc2 farctan2 (map (fmul (Fin 2)) rsqsu) d;
     Some (map (\<lambda>x. fmod x (Fin pi)) (map (fmul (Fin (1 / 2))) a))
   }"

definition u_bias_arr ::
  "fval list \<Rightarrow> fval list \<Rightarrow> fval list \<Rightarrow> fval list \<Rightarrow> fval list option" where
  "u_bias_arr sqp sup' phi theta = do {
     d1 \<leftarrow> ufunc2 fsub phi theta;
     l \<leftarrow> ufunc2 fmul (map fpow2 sup') (map fpow2 (map fcos d1));
     d2 \<leftarrow> ufunc2 fsub phi theta;
     r \<leftarrow> ufunc2 fmul (map fpow2 sqp) (map fpow2 (map fsin d2));
     s \<leftarrow> ufunc2 fadd l r;
     Some (map fsqrt s)
   }"

definition u_sigma_q_prime_arr ::
  "fval list \<Rightarrow> fval list \<Rightarrow> fval list \<Rightarrow> fval list \<Rightarrow> fval list option" where
  "u_sigma_q_prime_arr sq su rsqsu theta = do {
     a \<leftarrow> ufunc2 fmul (map fpow2 sq) (map fpow2 (map fcos theta));
     b \<leftarrow> ufunc2 fmul (map fpow2 su) (map fpow2 (map fsin theta));
     c \<leftarrow> ufunc2 fadd a b;
     d \<leftarrow> ufunc2 fmul rsqsu (map fsin (map (fmul (Fin 2)) theta));
     s \<leftarrow> ufunc2 fadd c d;
     Some (map fsqrt s)
   }"

definition u_sigma_u_prime_arr ::
  "fval list \<Rightarrow> fval list \<Rightarrow> fval list \<Rightarrow> fval list \<Rightarrow> fval list option" where
  "u_sigma_u_prime_arr sq su rsqsu theta = do {
     a \<leftarrow> ufunc2 fmul (map fpow2 sq) (map fpow2 (map fsin theta));
     b \<leftarrow> ufunc2 fmul (map fpow2 su) (map fpow2 (map fcos theta));
     c \<leftarrow> ufunc2 fadd a b;
     d \<leftarrow> ufunc2 fmul rsqsu (map fsin (map (fmul (Fin 2)) theta));
     s \<leftarrow> ufunc2 fsub c d;
     Some (map fsqrt s)
   }"

definition u_P_arr :: "fval list \<Rightarrow> fval list \<Rightarrow> fval list option" where
  "u_P_arr q u = do {
     s \<leftarrow> ufunc2 fadd (map fpow2 q) (map fpow2 u);
     Some (map fsqrt s)
   }"

definition PMAS_arr ::
  "fval list \<Rightarrow> fval list \<Rightarrow> fval list \<Rightarrow> fval list \<Rightarrow> fval list \<Rightarrow> fval list option" where
  "PMAS_arr q u sq su rsqsu = do {
     P \<leftarrow> u_P_arr q u;
     phi \<leftarrow> u_phi_arr q u;
     theta \<leftarrow> u_theta_arr sq su rsqsu;
     sqp \<leftarrow> u_sigma_q_prime_arr sq su rsqsu theta;
     sup' \<leftarrow> u_sigma_u_prime_arr sq su rsqsu theta;
     bias \<leftarrow> u_bias_arr sqp sup' phi theta;
     e \<leftarrow> ufunc2 fdiv (map fneg (map fpow2 P)) (map fpow2 bias);
     m \<leftarrow> ufunc2 fmul (map fpow2 bias) (map (fsub (Fin 1)) (map fexp e));
     c \<leftarrow> ufunc2 fdiv (map (\<lambda>x. fdiv x (Fin 2)) m) P;
     ufunc2 fsub P c
   }"

section \<open>Auxiliary quantities for the proofs\<close>

text \<open>
  The return expression of \<open>PMAS\<close> as a function of the two values \<open>P\<close> and
  \<open>bias\<close> it is computed from.
\<close>

definition mas :: "fval \<Rightarrow> fval \<Rightarrow> fval" where
  "mas P bias =
     fsub P (fdiv (fdiv (fmul (fpow2 bias)
                              (fsub (Fin 1) (fexp (fdiv (fneg (fpow2 P)) (fpow2 bias)))))
                        (Fin 2))
                  P)"





text \<open>The array whose element \<open>i\<close> is \<open>g i\<close>, for \<open>i < n\<close>.\<close>

definition tab :: "nat \<Rightarrow> (nat \<Rightarrow> fval) \<Rightarrow> fval list" where
  "tab n g = map g [0..<n]"

section \<open>The two-argument arctangent and the remainder\<close>





lemma arctan2_range: "- pi < arctan2 y x \<and> arctan2 y x \<le> pi"
proof -
  have b: "- (pi / 2) < arctan (y / x)" "arctan (y / x) < pi / 2"
    by (rule arctan_lbound, rule arctan_ubound)
  have "x < 0 \<Longrightarrow> 0 \<le> y \<Longrightarrow> arctan (y / x) \<le> 0"
    by (simp add: arctan_le_zero_iff divide_nonneg_neg)
  moreover have "x < 0 \<Longrightarrow> y < 0 \<Longrightarrow> 0 < arctan (y / x)"
    by (simp add: zero_less_arctan_iff divide_neg_neg)
  ultimately show ?thesis
    using b pi_gt_zero by (auto simp: arctan2_def)
qed




section \<open>Arithmetic on values\<close>

lemma fpow2_Fin: "fpow2 (Fin x) = Fin (x\<^sup>2)"
  by (simp add: fpow2_def power2_eq_square)

lemma fsub_Fin: "fsub (Fin x) (Fin y) = Fin (x - y)"
  by (simp add: fsub_def)

lemma fsub_NaN: "fsub a NaN = NaN" "fsub NaN b = NaN"
  by (cases a; simp add: fsub_def) (simp add: fsub_def)

lemma fpow2_NaN: "fpow2 NaN = NaN"
  by (simp add: fpow2_def)


lemma farctan2_range: "farctan2 y x = Fin a \<Longrightarrow> - pi \<le> a \<and> a \<le> pi"
proof (cases y; cases x)
  fix b c assume "y = Fin b" "x = Fin c" and "farctan2 y x = Fin a"
  then show ?thesis using arctan2_range [of b c] by auto
qed (auto split: if_splits, insert pi_gt_zero, linarith+)

lemma farctan2_not_inf: "farctan2 y x \<noteq> PInf \<and> farctan2 y x \<noteq> MInf"
  by (cases y; cases x) simp_all

lemma farctan2_Fin_or_NaN: "farctan2 y x = NaN \<or> (\<exists>a. farctan2 y x = Fin a)"
  using farctan2_not_inf [of y x] by (cases "farctan2 y x") simp_all

lemma farctan2_cases: "farctan2 y x = NaN \<or> (\<exists>a. farctan2 y x = Fin a \<and> - pi \<le> a \<and> a \<le> pi)"
  using farctan2_Fin_or_NaN [of y x] farctan2_range [of y x] by blast

section \<open>The helpers on finite inputs\<close>















lemma theta_unit: "u_theta (Fin s) (Fin s) (Fin 0) = Fin 0"
  by (simp add: u_theta_def fpow2_def fsub_def arctan2_def np_mod_def)

lemma bias_isotropic:
  "0 \<le> s \<Longrightarrow>
   u_bias (u_sigma_q_prime (Fin s) (Fin s) (Fin 0) (Fin 0))
          (u_sigma_u_prime (Fin s) (Fin s) (Fin 0) (Fin 0))
          (u_phi (Fin q) (Fin u)) (Fin 0) = Fin s"
proof -
  assume s: "0 \<le> s"
  define a where "a = arctan2 u q"
  have e: "(cos a)\<^sup>2 + (sin a)\<^sup>2 = 1" by simp
  have "s * s * (cos a * cos a) + s * s * (sin a * sin a) = s * s * ((cos a)\<^sup>2 + (sin a)\<^sup>2)"
    by (simp only: power2_eq_square distrib_left)
  also have "\<dots> = s * s" by (simp only: e mult_1_right)
  finally have "s * s * (cos a * cos a) + s * s * (sin a * sin a) = s * s" .
  then show ?thesis
    using s unfolding a_def
    by (simp add: u_bias_def u_sigma_q_prime_def u_sigma_u_prime_def u_phi_def fpow2_def
        fsub_def not_less)
qed

lemma farctan2_NaN_P: "farctan2 u q = NaN \<Longrightarrow> u_P q u = NaN"
  by (cases u; cases q) (simp_all add: u_P_def fpow2_def split: if_splits)

lemma zero_noise_sigmas:
  "u_sigma_q_prime (Fin 0) (Fin 0) (Fin 0) (Fin 0) = Fin 0"
  "u_sigma_u_prime (Fin 0) (Fin 0) (Fin 0) (Fin 0) = Fin 0"
  by (simp_all add: u_sigma_q_prime_def u_sigma_u_prime_def fpow2_def fsub_def)

lemma zero_noise_bias:
  "u_bias (Fin 0) (Fin 0) (Fin a) (Fin 0) = Fin 0"
  by (simp add: u_bias_def fpow2_def fsub_def)

lemma u_bias_NaN_phi: "u_bias a b NaN t = NaN"
  by (cases a; cases b; cases t) (simp_all add: u_bias_def fpow2_def fsub_def)

section \<open>The bias in closed form\<close>







section \<open>The return expression\<close>

lemma PMAS_mas:
  "PMAS q u sq su rsqsu =
     mas (u_P q u)
       (u_bias (u_sigma_q_prime sq su rsqsu (u_theta sq su rsqsu))
               (u_sigma_u_prime sq su rsqsu (u_theta sq su rsqsu))
               (u_phi q u) (u_theta sq su rsqsu))"
  by (simp add: PMAS_def mas_def Let_def)

lemma mas_zero: "mas (Fin 0) (Fin b) = NaN"
  by (simp add: mas_def fpow2_Fin fsub_Fin fsub_NaN)

lemma mas_NaN: "mas P NaN = NaN"
  by (cases P) (simp_all add: mas_def fpow2_NaN fsub_NaN fpow2_Fin fpow2_def)


lemma mas_zero_bias: "mas P (Fin 0) = (if P = Fin 0 then NaN else P)"
  by (cases P) (simp_all add: mas_def fpow2_def fsub_def)




section \<open>Arrays of one shape\<close>

lemma tab_nth: "length xs = n \<Longrightarrow> xs = tab n (\<lambda>i. xs ! i)"
  unfolding tab_def by (rule nth_equalityI) simp_all

lemma length_tab: "length (tab n g) = n"
  by (simp add: tab_def)

lemma nth_tab: "i < n \<Longrightarrow> tab n g ! i = g i"
  by (simp add: tab_def)

lemma map_tab: "map f (tab n g) = tab n (\<lambda>i. f (g i))"
  by (simp add: tab_def)

lemma ufunc2_tab: "ufunc2 f (tab n g) (tab n h) = Some (tab n (\<lambda>i. f (g i) (h i)))"
proof -
  have "map2 f (tab n g) (tab n h) = tab n (\<lambda>i. f (g i) (h i))"
    by (rule nth_equalityI) (simp_all add: tab_def)
  then show ?thesis by (simp add: ufunc2_def length_tab)
qed

lemma u_P_arr_tab: "u_P_arr (tab n q) (tab n u) = Some (tab n (\<lambda>i. u_P (q i) (u i)))"
  by (simp add: u_P_arr_def u_P_def map_tab ufunc2_tab)

lemma u_phi_arr_tab: "u_phi_arr (tab n q) (tab n u) = Some (tab n (\<lambda>i. u_phi (q i) (u i)))"
  by (simp add: u_phi_arr_def u_phi_def map_tab ufunc2_tab)

lemma u_theta_arr_tab:
  "u_theta_arr (tab n sq) (tab n su) (tab n r) = Some (tab n (\<lambda>i. u_theta (sq i) (su i) (r i)))"
  by (simp add: u_theta_arr_def u_theta_def map_tab ufunc2_tab)

lemma u_sigma_q_prime_arr_tab:
  "u_sigma_q_prime_arr (tab n sq) (tab n su) (tab n r) (tab n t)
     = Some (tab n (\<lambda>i. u_sigma_q_prime (sq i) (su i) (r i) (t i)))"
  by (simp add: u_sigma_q_prime_arr_def u_sigma_q_prime_def map_tab ufunc2_tab)

lemma u_sigma_u_prime_arr_tab:
  "u_sigma_u_prime_arr (tab n sq) (tab n su) (tab n r) (tab n t)
     = Some (tab n (\<lambda>i. u_sigma_u_prime (sq i) (su i) (r i) (t i)))"
  by (simp add: u_sigma_u_prime_arr_def u_sigma_u_prime_def map_tab ufunc2_tab)

lemma u_bias_arr_tab:
  "u_bias_arr (tab n a) (tab n b) (tab n p) (tab n t)
     = Some (tab n (\<lambda>i. u_bias (a i) (b i) (p i) (t i)))"
  by (simp add: u_bias_arr_def u_bias_def map_tab ufunc2_tab)

lemma PMAS_arr_tab:
  "PMAS_arr (tab n q) (tab n u) (tab n sq) (tab n su) (tab n r)
     = Some (tab n (\<lambda>i. PMAS (q i) (u i) (sq i) (su i) (r i)))"
  by (simp add: PMAS_arr_def PMAS_def Let_def u_P_arr_tab u_phi_arr_tab u_theta_arr_tab
      u_sigma_q_prime_arr_tab u_sigma_u_prime_arr_tab u_bias_arr_tab map_tab ufunc2_tab)

lemma PMAS_arr_same_shape:
  assumes "length q = n" "length u = n" "length sq = n" "length su = n" "length r = n"
  shows "PMAS_arr q u sq su r = Some (tab n (\<lambda>i. PMAS (q ! i) (u ! i) (sq ! i) (su ! i) (r ! i)))"
proof -
  have "PMAS_arr (tab n (\<lambda>i. q ! i)) (tab n (\<lambda>i. u ! i)) (tab n (\<lambda>i. sq ! i))
           (tab n (\<lambda>i. su ! i)) (tab n (\<lambda>i. r ! i))
        = Some (tab n (\<lambda>i. PMAS (q ! i) (u ! i) (sq ! i) (su ! i) (r ! i)))"
    by (rule PMAS_arr_tab)
  then show ?thesis
    by (simp only: tab_nth [OF assms(1), symmetric] tab_nth [OF assms(2), symmetric]
        tab_nth [OF assms(3), symmetric] tab_nth [OF assms(4), symmetric]
        tab_nth [OF assms(5), symmetric])
qed

section \<open>The singular inputs\<close>

text \<open>
  Claim C2 says that zero signal with positive bias gives \<open>0\<close>. The module has no
  special case: with \<open>Q = U = 0\<close> and \<open>\<sigma>\<^sub>q = \<sigma>\<^sub>u = 1\<close>, \<open>\<rho>\<sigma>\<^sub>q\<sigma>\<^sub>u = 0\<close> the bias is \<open>1\<close>, the
  correction term is \<open>0 / 0\<close> and the result is \<^verbatim>\<open>nan\<close>.
\<close>

theorem PMAS_zero_signal_counterexample:
  "u_bias (u_sigma_q_prime (Fin 1) (Fin 1) (Fin 0) (u_theta (Fin 1) (Fin 1) (Fin 0)))
          (u_sigma_u_prime (Fin 1) (Fin 1) (Fin 0) (u_theta (Fin 1) (Fin 1) (Fin 0)))
          (u_phi (Fin 0) (Fin 0)) (u_theta (Fin 1) (Fin 1) (Fin 0)) = Fin 1
   \<and> PMAS (Fin 0) (Fin 0) (Fin 1) (Fin 1) (Fin 0) = NaN
   \<and> PMAS (Fin 0) (Fin 0) (Fin 1) (Fin 1) (Fin 0) \<noteq> Fin 0"
proof -
  have b: "u_bias (u_sigma_q_prime (Fin 1) (Fin 1) (Fin 0) (u_theta (Fin 1) (Fin 1) (Fin 0)))
          (u_sigma_u_prime (Fin 1) (Fin 1) (Fin 0) (u_theta (Fin 1) (Fin 1) (Fin 0)))
          (u_phi (Fin 0) (Fin 0)) (u_theta (Fin 1) (Fin 1) (Fin 0)) = Fin 1"
    unfolding theta_unit by (rule bias_isotropic) simp
  have p: "u_P (Fin 0) (Fin 0) = Fin 0" by (simp add: u_P_def fpow2_def)
  have "PMAS (Fin 0) (Fin 0) (Fin 1) (Fin 1) (Fin 0) = NaN"
    unfolding PMAS_mas b p by (rule mas_zero)
  with b show ?thesis by simp
qed

text \<open>
  Claim C2, amended. For every finite noise input whose bias at \<open>Q = U = 0\<close> is a
  positive number, \<open>PMAS\<close> returns \<^verbatim>\<open>nan\<close>.
\<close>

theorem PMAS_zero_signal:
  assumes "u_bias (u_sigma_q_prime (Fin sq) (Fin su) (Fin r) (u_theta (Fin sq) (Fin su) (Fin r)))
                  (u_sigma_u_prime (Fin sq) (Fin su) (Fin r) (u_theta (Fin sq) (Fin su) (Fin r)))
                  (u_phi (Fin 0) (Fin 0)) (u_theta (Fin sq) (Fin su) (Fin r)) = Fin b"
    and "0 < b"
  shows "PMAS (Fin 0) (Fin 0) (Fin sq) (Fin su) (Fin r) = NaN"
proof -
  have p: "u_P (Fin 0) (Fin 0) = Fin 0" by (simp add: u_P_def fpow2_def)
  show ?thesis unfolding PMAS_mas assms(1) p by (rule mas_zero)
qed

theorem PMAS_zero_signal_witness:
  "PMAS (Fin 0) (Fin 0) (Fin 2) (Fin 2) (Fin 0) = NaN"
proof -
  have b: "u_bias (u_sigma_q_prime (Fin 2) (Fin 2) (Fin 0) (u_theta (Fin 2) (Fin 2) (Fin 0)))
          (u_sigma_u_prime (Fin 2) (Fin 2) (Fin 0) (u_theta (Fin 2) (Fin 2) (Fin 0)))
          (u_phi (Fin 0) (Fin 0)) (u_theta (Fin 2) (Fin 2) (Fin 0)) = Fin 2"
    unfolding theta_unit by (rule bias_isotropic) simp
  have "(0::real) < 2" by simp
  from PMAS_zero_signal [OF b this] show ?thesis .
qed

text \<open>
  Claim C3 says that zero noise gives \<open>P\<close> for arbitrary \<open>Q\<close>, \<open>U\<close>. At \<open>Q = U = 0\<close>
  the exponent is \<open>0 / 0\<close> and the result is \<^verbatim>\<open>nan\<close>.
\<close>

theorem PMAS_zero_noise_counterexample:
  "PMAS (Fin 0) (Fin 0) (Fin 0) (Fin 0) (Fin 0) = NaN
   \<and> PMAS (Fin 0) (Fin 0) (Fin 0) (Fin 0) (Fin 0) \<noteq> Fin (sqrt (0\<^sup>2 + 0\<^sup>2))"
proof -
  have b: "u_bias (u_sigma_q_prime (Fin 0) (Fin 0) (Fin 0) (u_theta (Fin 0) (Fin 0) (Fin 0)))
          (u_sigma_u_prime (Fin 0) (Fin 0) (Fin 0) (u_theta (Fin 0) (Fin 0) (Fin 0)))
          (u_phi (Fin 0) (Fin 0)) (u_theta (Fin 0) (Fin 0) (Fin 0)) = Fin 0"
    unfolding theta_unit by (rule bias_isotropic) simp
  have p: "u_P (Fin 0) (Fin 0) = Fin 0" by (simp add: u_P_def fpow2_def)
  have "PMAS (Fin 0) (Fin 0) (Fin 0) (Fin 0) (Fin 0) = NaN"
    unfolding PMAS_mas b p by (rule mas_zero)
  then show ?thesis by simp
qed

text \<open>
  Claim C3, amended. With zero noise (\<open>\<sigma>\<^sub>q = \<sigma>\<^sub>u = \<rho>\<sigma>\<^sub>q\<sigma>\<^sub>u = 0\<close>) and arbitrary \<open>Q\<close>, \<open>U\<close>,
  \<open>PMAS\<close> returns the naive intensity \<open>P\<close> computed by \<open>u_P\<close> itself, with no bias
  correction, except where that computed \<open>P\<close> is \<open>0\<close>: there it returns \<^verbatim>\<open>nan\<close>. (For
  \<open>P \<noteq> 0\<close> the exponent \<open>- P\<^sup>2 / 0\<close> is \<^verbatim>\<open>-inf\<close>, its exponential is \<open>0\<close>, and the correction
  is \<open>0\<close>; a \<^verbatim>\<open>nan\<close> or infinite \<open>P\<close> is returned as it is.)
\<close>

theorem PMAS_zero_noise:
  "PMAS q u (Fin 0) (Fin 0) (Fin 0) = (if u_P q u = Fin 0 then NaN else u_P q u)"
proof -
  have m: "PMAS q u (Fin 0) (Fin 0) (Fin 0) = mas (u_P q u) (u_bias (Fin 0) (Fin 0) (u_phi q u) (Fin 0))"
    by (simp only: PMAS_mas theta_unit zero_noise_sigmas)
  from farctan2_cases [of u q] show ?thesis
  proof
    assume n: "farctan2 u q = NaN"
    then have "u_P q u = NaN" by (rule farctan2_NaN_P)
    with n show ?thesis unfolding m by (simp add: u_phi_def u_bias_NaN_phi mas_NaN)
  next
    assume "\<exists>a. farctan2 u q = Fin a \<and> - pi \<le> a \<and> a \<le> pi"
    then obtain a where "farctan2 u q = Fin a" by blast
    then show ?thesis unfolding m by (simp add: u_phi_def zero_noise_bias mas_zero_bias)
  qed
qed

theorem PMAS_zero_noise_witness:
  "PMAS (Fin 1) (Fin 0) (Fin 0) (Fin 0) (Fin 0) = Fin 1"
  using PMAS_zero_noise [of "Fin 1" "Fin 0"] by (simp add: u_P_def fpow2_def)

section \<open>The principal-axis angle\<close>




section \<open>Exchanging the two Stokes axes\<close>




section \<open>Independence of the elements of a batch\<close>

text \<open>
  Claim C8. For two batches of five arrays of the common shape \<open>(n,)\<close> that agree at
  index \<open>k\<close>, both calls return an array of shape \<open>(n,)\<close>, element \<open>k\<close> of the output is
  the scalar estimator applied to the five inputs at index \<open>k\<close>, and it is the same in
  both outputs, whatever the other elements are (\<^verbatim>\<open>nan\<close> and infinities included).
\<close>

theorem PMAS_arr_elementwise:
  assumes "length q = n" "length u = n" "length sq = n" "length su = n" "length r = n"
    and "length q' = n" "length u' = n" "length sq' = n" "length su' = n" "length r' = n"
    and "k < n"
    and "q' ! k = q ! k" "u' ! k = u ! k" "sq' ! k = sq ! k" "su' ! k = su ! k" "r' ! k = r ! k"
  shows "\<exists>out out'. PMAS_arr q u sq su r = Some out \<and> PMAS_arr q' u' sq' su' r' = Some out'
           \<and> length out = n \<and> length out' = n
           \<and> out ! k = PMAS (q ! k) (u ! k) (sq ! k) (su ! k) (r ! k)
           \<and> out' ! k = out ! k"
proof -
  have 1: "PMAS_arr q u sq su r
             = Some (tab n (\<lambda>i. PMAS (q ! i) (u ! i) (sq ! i) (su ! i) (r ! i)))"
    by (rule PMAS_arr_same_shape [OF assms(1-5)])
  have 2: "PMAS_arr q' u' sq' su' r'
             = Some (tab n (\<lambda>i. PMAS (q' ! i) (u' ! i) (sq' ! i) (su' ! i) (r' ! i)))"
    by (rule PMAS_arr_same_shape [OF assms(6-10)])
  show ?thesis
    unfolding 1 2 using assms(11-16) by (simp add: length_tab nth_tab)
qed

theorem PMAS_arr_elementwise_witness:
  "\<exists>out out'. PMAS_arr [Fin 1, Fin 3] [Fin 0, Fin 4] [Fin 1, Fin 1] [Fin 1, Fin 1] [Fin 0, Fin 0]
                 = Some out
     \<and> PMAS_arr [Fin 1, Fin 0] [Fin 0, Fin 0] [Fin 1, Fin 1] [Fin 1, Fin 1] [Fin 0, Fin 2]
                 = Some out'
     \<and> length out = 2 \<and> length out' = 2
     \<and> out ! 0 = PMAS ([Fin 1, Fin 3] ! 0) ([Fin 0, Fin 4] ! 0) ([Fin 1, Fin 1] ! 0)
                       ([Fin 1, Fin 1] ! 0) ([Fin 0, Fin 0] ! 0)
     \<and> out' ! 0 = out ! 0"
  by (rule PMAS_arr_elementwise [where n = 2 and k = 0]) simp_all

end
